theory Spec2Isabelle
  imports Main "HOL-Library.Word" "HOL-Library.Option_ord"
begin

section \<open>Data model\<close>

text \<open>
  The store is a MongoDB database with three collections, \<open>idea\<close>, \<open>comment\<close> and
  \<open>vote\<close>. A stored document is the pair of its \<open>_id\<close> (a 12-byte ObjectId, here a
  96-bit word) and the fields of the Pydantic model of \<open>schemas.py\<close> it was dumped from.
  A collection is the list of its documents in insertion order, which is the order in
  which \<open>find_one\<close> and \<open>update_one\<close> meet them. Timestamps are integers (milliseconds,
  the precision at which the store keeps a date), and the clock is an input of every
  operation that reads it. The three models share the fields \<open>created_at\<close> and
  \<open>updated_at\<close>, which are the base record \<open>timestamps\<close>.
\<close>

type_synonym objectid = "96 word"
type_synonym datetime = int

record timestamps =
  created_at :: "datetime option"
  updated_at :: "datetime option"

record Idea = timestamps +
  title :: string
  description :: string
  link :: "string option"
  votes_count :: int
  comments_count :: int

record Comment = timestamps +
  post_id :: string
  author :: string
  text' :: string

record Vote = timestamps +
  post_id :: string
  ip :: string

type_synonym 'a collection = "(objectid \<times> 'a) list"

record database =
  idea :: "Idea collection"
  comment :: "Comment collection"
  vote :: "Vote collection"

definition empty_db :: database where
  "empty_db = \<lparr>idea = [], comment = [], vote = []\<rparr>"

text \<open>The request bodies of \<open>main.py\<close>.\<close>

record CreateIdea =
  title :: string
  description :: string
  link :: "string option"

record CreateComment =
  post_id :: string
  author :: string
  text' :: string

text \<open>
  What a handler reads of a Starlette request: the headers (names in lower case, as ASGI
  delivers them) and the peer address \<open>(host, port)\<close>, which may be absent.
\<close>

record Request =
  headers :: "(string \<times> string) list"
  client :: "(string \<times> nat) option"

text \<open>
  Every exception a handler can raise. \<open>HTTPException\<close> is the one the handlers raise
  themselves; \<open>RequestValidationError\<close> is FastAPI rejecting a body that violates the
  \<open>Field\<close> constraints of the request model; the others are raised by the libraries
  and are not caught, so FastAPI answers them with status 500.
\<close>

datatype error =
    HTTPException nat string
  | RequestValidationError
  | ValidationError
  | InvalidId string
  | DuplicateKeyError
  | TypeError

fun status_code :: "error \<Rightarrow> nat" where
  "status_code (HTTPException code detail) = code"
| "status_code RequestValidationError = 422"
| "status_code ValidationError = 500"
| "status_code (InvalidId s) = 500"
| "status_code DuplicateKeyError = 500"
| "status_code TypeError = 500"

section \<open>Library functions the handlers call\<close>

subsection \<open>bson.ObjectId\<close>

fun hexval :: "char \<Rightarrow> nat option" where
  "hexval c =
     (let n = (of_char c :: nat) in
      if 48 \<le> n \<and> n \<le> 57 then Some (n - 48)
      else if 97 \<le> n \<and> n \<le> 102 then Some (n - 87)
      else if 65 \<le> n \<and> n \<le> 70 then Some (n - 55)
      else None)"

fun fromhex :: "nat \<Rightarrow> string \<Rightarrow> nat option" where
  "fromhex acc [] = Some acc"
| "fromhex acc (c # cs) =
     (case hexval c of None \<Rightarrow> None | Some d \<Rightarrow> fromhex (16 * acc + d) cs)"

text \<open>
  \<open>ObjectId(s)\<close> of a string: 24 hexadecimal digits, upper or lower case, denote the
  12 bytes they spell; every other string raises \<open>InvalidId\<close>. (The library also lets
  white space stand between the digit pairs of a 24-character string; what it builds
  then is shorter than 12 bytes and is the \<open>_id\<close> of no document. The model has such
  a string fail like every other malformed one.)
\<close>

definition ObjectId :: "string \<Rightarrow> error + objectid" where
  "ObjectId s =
     (if length s = 24 then
        (case fromhex 0 s of None \<Rightarrow> Inl (InvalidId s) | Some n \<Rightarrow> Inr (of_nat n))
      else Inl (InvalidId s))"

definition hexdigit :: "nat \<Rightarrow> char" where
  "hexdigit d = ''0123456789abcdef'' ! d"

text \<open>\<open>str(oid)\<close>: the 24 lower-case hexadecimal digits of the 12 bytes.\<close>

definition str :: "objectid \<Rightarrow> string" where
  "str w = map (\<lambda>i. hexdigit ((unat w div 16 ^ (23 - i)) mod 16)) [0..<24]"

subsection \<open>Python strings\<close>

text \<open>\<open>str.isspace\<close> on one character of a header value (a Latin-1 character).\<close>

definition isspace :: "char \<Rightarrow> bool" where
  "isspace c =
     (let n = (of_char c :: nat) in
      (9 \<le> n \<and> n \<le> 13) \<or> (28 \<le> n \<and> n \<le> 32) \<or> n = 133 \<or> n = 160)"

definition strip :: "string \<Rightarrow> string" where
  "strip s = rev (dropWhile isspace (rev (dropWhile isspace s)))"

text \<open>\<open>s.split(",")[0]\<close>: the part of \<open>s\<close> before its first comma.\<close>

definition split_comma_first :: "string \<Rightarrow> string" where
  "split_comma_first s = takeWhile (\<lambda>c. c \<noteq> CHR '','') s"

subsection \<open>Collections\<close>

text \<open>\<open>find_one({"_id": key})\<close>: the first document with that \<open>_id\<close>, or \<open>None\<close>.\<close>

definition find_one_id :: "'a collection \<Rightarrow> objectid \<Rightarrow> (objectid \<times> 'a) option" where
  "find_one_id coll key = find (\<lambda>doc. fst doc = key) coll"

text \<open>\<open>db["vote"].find_one({"ip": ip})\<close>.\<close>

definition find_one_ip :: "Vote collection \<Rightarrow> string \<Rightarrow> (objectid \<times> Vote) option" where
  "find_one_ip coll a = find (\<lambda>doc. ip (snd doc) = a) coll"

text \<open>
  \<open>update_one({"_id": key}, {"$inc": ...})\<close>: the first document with that \<open>_id\<close> is
  replaced by its update; a collection without one is left as it is.
\<close>

fun update_one_id :: "'a collection \<Rightarrow> objectid \<Rightarrow> ('a \<Rightarrow> 'a) \<Rightarrow> 'a collection" where
  "update_one_id [] key f = []"
| "update_one_id (doc # docs) key f =
     (if fst doc = key then (fst doc, f (snd doc)) # docs
      else doc # update_one_id docs key f)"

text \<open>
  Modelled from the spec: \<open>create_document\<close> of the repository's \<open>database\<close> module, which
  is not among the sources. The spec has it persist the record in the named collection
  with its timestamps stamped, and the handlers use its result as the string of the new
  document's \<open>_id\<close>. The \<open>_id\<close> is generated by the driver, so it is an input here
  (\<open>new_id\<close>); the store keeps \<open>_id\<close> unique within a collection and refuses a
  document whose \<open>_id\<close> is taken.
\<close>

definition create_document ::
  "('a timestamps_scheme) collection \<Rightarrow> objectid \<Rightarrow> datetime \<Rightarrow> 'a timestamps_scheme
     \<Rightarrow> error + (string \<times> ('a timestamps_scheme) collection)" where
  "create_document coll new_id now data =
     (if new_id \<in> set (map fst coll) then Inl DuplicateKeyError
      else Inr (str new_id,
                coll @ [(new_id, data\<lparr>created_at := Some now, updated_at := Some now\<rparr>)]))"

text \<open>
  \<open>cursor.sort(field, -1)\<close>: descending by the key. Documents with equal keys keep their
  insertion order here; the store itself does not fix their order.
\<close>

definition sort_desc :: "('a \<Rightarrow> 'k::linorder) \<Rightarrow> 'a list \<Rightarrow> 'a list" where
  "sort_desc k xs = rev (sort_key k (rev xs))"

text \<open>\<open>cursor.limit(n)\<close>: \<open>0\<close> is no limit, and a negative \<open>n\<close> limits to \<open>- n\<close>.\<close>

definition limit_docs :: "int \<Rightarrow> 'a list \<Rightarrow> 'a list" where
  "limit_docs n xs = (if n = 0 then xs else take (nat \<bar>n\<bar>) xs)"

text \<open>\<open>timedelta(days=n)\<close> on the scale of the stored timestamps (milliseconds).\<close>

definition days :: "int \<Rightarrow> datetime" where
  "days n = n * 86400000"

section \<open>Pydantic models\<close>

text \<open>
  The \<open>Field\<close> constraints of the request models; FastAPI checks them before it calls
  the handler. A length is the number of characters of the model's string.
\<close>

definition valid_CreateIdea :: "CreateIdea \<Rightarrow> bool" where
  "valid_CreateIdea p =
     (3 \<le> length (CreateIdea.title p) \<and> length (CreateIdea.title p) \<le> 120 \<and>
      10 \<le> length (CreateIdea.description p) \<and> length (CreateIdea.description p) \<le> 1000)"

definition valid_CreateComment :: "CreateComment \<Rightarrow> bool" where
  "valid_CreateComment p =
     (1 \<le> length (CreateComment.author p) \<and> length (CreateComment.author p) \<le> 60 \<and>
      1 \<le> length (CreateComment.text' p) \<and> length (CreateComment.text' p) \<le> 500)"

text \<open>
  The constructors of the stored models. \<open>Idea(...)\<close> checks its fields again and
  parses the link as an \<open>HttpUrl\<close>; which strings Pydantic accepts as one is the
  parameter \<open>HttpUrl\<close>. The counters default to \<open>0\<close> and the timestamps to \<open>None\<close>.
\<close>

definition new_Idea :: "(string \<Rightarrow> bool) \<Rightarrow> string \<Rightarrow> string \<Rightarrow> string option \<Rightarrow> error + Idea" where
  "new_Idea HttpUrl t d l =
     (if 3 \<le> length t \<and> length t \<le> 120 \<and> 10 \<le> length d \<and> length d \<le> 1000 \<and>
         (case l of None \<Rightarrow> True | Some u \<Rightarrow> HttpUrl u)
      then Inr \<lparr>created_at = None, updated_at = None, Idea.title = t, Idea.description = d,
                Idea.link = l, votes_count = 0, comments_count = 0\<rparr>
      else Inl ValidationError)"

definition new_Comment :: "string \<Rightarrow> string \<Rightarrow> string \<Rightarrow> error + Comment" where
  "new_Comment p a t =
     (if 1 \<le> length a \<and> length a \<le> 60 \<and> 1 \<le> length t \<and> length t \<le> 500
      then Inr \<lparr>created_at = None, updated_at = None, Comment.post_id = p, Comment.author = a,
                Comment.text' = t\<rparr>
      else Inl ValidationError)"

definition new_Vote :: "string \<Rightarrow> string \<Rightarrow> Vote" where
  "new_Vote p a = \<lparr>created_at = None, updated_at = None, Vote.post_id = p, ip = a\<rparr>"

section \<open>The handlers of main.py\<close>

text \<open>
  A handler takes the global \<open>db\<close> (\<open>None\<close> when no database is configured), the values
  the environment supplies (the \<open>_id\<close> the driver generates for an insert, the clock)
  and its arguments. It returns the response or the exception raised, and \<open>db\<close> as the
  request leaves it.
\<close>

text \<open>
  \<open>serialize_doc\<close>: the document with the string of its \<open>_id\<close> under \<open>id\<close>. The model
  keeps the timestamps as they are stored; rendering them with \<open>isoformat\<close> is left out.
\<close>

definition serialize_doc :: "objectid \<times> 'a \<Rightarrow> string \<times> 'a" where
  "serialize_doc doc = (str (fst doc), snd doc)"

datatype response =
    IdeaDoc "string \<times> Idea"
  | CommentDoc "string \<times> Comment"
  | Items "(string \<times> Idea) list"
  | IdeaWithComments "string \<times> Idea" "(string \<times> Comment) list"
  | VoteStatus string string
  | SeedStatus string nat

type_synonym outcome = "(error + response) \<times> database option"

definition create_idea ::
  "(string \<Rightarrow> bool) \<Rightarrow> database option \<Rightarrow> objectid \<Rightarrow> datetime \<Rightarrow> CreateIdea \<Rightarrow> outcome" where
  "create_idea HttpUrl dbo new_id now payload =
     (if \<not> valid_CreateIdea payload then (Inl RequestValidationError, dbo)
      else case dbo of
        None \<Rightarrow> (Inl (HTTPException 500 ''Database not available''), None)
      | Some db \<Rightarrow>
          (case new_Idea HttpUrl (CreateIdea.title payload) (CreateIdea.description payload)
                  (CreateIdea.link payload) of
             Inl e \<Rightarrow> (Inl e, Some db)
           | Inr model \<Rightarrow>
               (case create_document (idea db) new_id now model of
                  Inl e \<Rightarrow> (Inl e, Some db)
                | Inr (idea_id, coll) \<Rightarrow>
                    (let db' = db\<lparr>idea := coll\<rparr> in
                     case ObjectId idea_id of
                       Inl e \<Rightarrow> (Inl e, Some db')
                     | Inr key \<Rightarrow>
                         (case find_one_id (idea db') key of
                            None \<Rightarrow> (Inl TypeError, Some db')
                          | Some created \<Rightarrow> (Inr (IdeaDoc (serialize_doc created)), Some db'))))))"

definition list_ideas ::
  "database option \<Rightarrow> datetime \<Rightarrow> string \<Rightarrow> string \<Rightarrow> int \<Rightarrow> outcome" where
  "list_ideas dbo now timeframe sort' limit =
     (case dbo of
        None \<Rightarrow> (Inl (HTTPException 500 ''Database not available''), None)
      | Some db \<Rightarrow>
          (let filter_q =
                 (if timeframe = ''week'' then Some (now - days 7)
                  else if timeframe = ''month'' then Some (now - days 30)
                  else None);
               matching =
                 (case filter_q of
                    None \<Rightarrow> idea db
                  | Some since \<Rightarrow>
                      filter (\<lambda>doc. case created_at (snd doc) of
                                       None \<Rightarrow> False | Some t \<Rightarrow> since \<le> t) (idea db));
               sort_field =
                 (if sort' = ''votes'' then (\<lambda>doc. Some (votes_count (snd doc)))
                  else if sort' = ''comments'' then (\<lambda>doc. Some (comments_count (snd doc)))
                  else if sort' = ''recent'' then (\<lambda>doc. created_at (snd doc))
                  else (\<lambda>doc. Some (votes_count (snd doc))));
               cursor = limit_docs limit (sort_desc sort_field matching)
           in (Inr (Items (map serialize_doc cursor)), Some db)))"

definition get_idea :: "database option \<Rightarrow> string \<Rightarrow> outcome" where
  "get_idea dbo idea_id =
     (case dbo of
        None \<Rightarrow> (Inl TypeError, None)
      | Some db \<Rightarrow>
          (case ObjectId idea_id of
             Inl e \<Rightarrow> (Inl e, Some db)
           | Inr key \<Rightarrow>
               (case find_one_id (idea db) key of
                  None \<Rightarrow> (Inl (HTTPException 404 ''Idea not found''), Some db)
                | Some doc \<Rightarrow>
                    (let comments =
                           sort_desc (\<lambda>c. created_at (snd c))
                             (filter (\<lambda>c. Comment.post_id (snd c) = idea_id) (comment db))
                     in (Inr (IdeaWithComments (serialize_doc doc) (map serialize_doc comments)),
                         Some db)))))"

definition add_comment ::
  "database option \<Rightarrow> objectid \<Rightarrow> datetime \<Rightarrow> CreateComment \<Rightarrow> outcome" where
  "add_comment dbo new_id now payload =
     (if \<not> valid_CreateComment payload then (Inl RequestValidationError, dbo)
      else case dbo of
        None \<Rightarrow> (Inl (HTTPException 500 ''Database not available''), None)
      | Some db \<Rightarrow>
          (case ObjectId (CreateComment.post_id payload) of
             Inl e \<Rightarrow> (Inl e, Some db)
           | Inr key \<Rightarrow>
               (case find_one_id (idea db) key of
                  None \<Rightarrow> (Inl (HTTPException 404 ''Idea not found''), Some db)
                | Some found \<Rightarrow>
                    (case new_Comment (CreateComment.post_id payload)
                            (CreateComment.author payload) (CreateComment.text' payload) of
                       Inl e \<Rightarrow> (Inl e, Some db)
                     | Inr model \<Rightarrow>
                         (case create_document (comment db) new_id now model of
                            Inl e \<Rightarrow> (Inl e, Some db)
                          | Inr (cid, coll) \<Rightarrow>
                              (let db' = db\<lparr>comment := coll\<rparr>;
                                   db'' = db'\<lparr>idea := update_one_id (idea db') key
                                            (\<lambda>i. i\<lparr>comments_count := comments_count i + 1\<rparr>)\<rparr>
                               in case ObjectId cid of
                                    Inl e \<Rightarrow> (Inl e, Some db'')
                                  | Inr ckey \<Rightarrow>
                                      (case find_one_id (comment db'') ckey of
                                         None \<Rightarrow> (Inl TypeError, Some db'')
                                       | Some created \<Rightarrow>
                                           (Inr (CommentDoc (serialize_doc created)),
                                            Some db''))))))))"

text \<open>
  The voter identity of \<open>vote_idea\<close>: the first entry of a non-empty
  \<open>x-forwarded-for\<close> header, stripped; else the peer's host; else \<open>"unknown"\<close>.
\<close>

definition client_ip :: "Request \<Rightarrow> string" where
  "client_ip request =
     (let xff = map_of (headers request) ''x-forwarded-for'';
          truthy = (case xff of None \<Rightarrow> False | Some s \<Rightarrow> s \<noteq> []);
          first = (case xff of None \<Rightarrow> [] | Some s \<Rightarrow> strip (split_comma_first s))
      in case client request of
           Some peer \<Rightarrow> (if truthy then first else fst peer)
         | None \<Rightarrow> (if truthy then first else ''unknown''))"

definition vote_idea ::
  "database option \<Rightarrow> objectid \<Rightarrow> datetime \<Rightarrow> string \<Rightarrow> Request \<Rightarrow> outcome" where
  "vote_idea dbo new_id now idea_id request =
     (case dbo of
        None \<Rightarrow> (Inl (HTTPException 500 ''Database not available''), None)
      | Some db \<Rightarrow>
          (let a = client_ip request in
           case ObjectId idea_id of
             Inl e \<Rightarrow> (Inl e, Some db)
           | Inr key \<Rightarrow>
               (case find_one_id (idea db) key of
                  None \<Rightarrow> (Inl (HTTPException 404 ''Idea not found''), Some db)
                | Some found \<Rightarrow>
                    (case find_one_ip (vote db) a of
                       Some existing_vote \<Rightarrow>
                         (if Vote.post_id (snd existing_vote) = idea_id
                          then (Inr (VoteStatus ''already_voted'' a), Some db)
                          else (Inl (HTTPException 403
                                  ''This IP has already voted for another idea''), Some db))
                     | None \<Rightarrow>
                         (case create_document (vote db) new_id now (new_Vote idea_id a) of
                            Inl e \<Rightarrow> (Inl e, Some db)
                          | Inr (vid, coll) \<Rightarrow>
                              (let db' = db\<lparr>vote := coll\<rparr>;
                                   db'' = db'\<lparr>idea := update_one_id (idea db') key
                                            (\<lambda>i. i\<lparr>votes_count := votes_count i + 1\<rparr>)\<rparr>
                               in (Inr (VoteStatus ''ok'' a), Some db'')))))))"

definition samples :: "(string \<times> string \<times> string) list" where
  "samples =
     [(''AI-Powered Meeting Notetaker for Open-Source PRs'',
       ''Summarize GitHub PR discussions and suggest action items with vibe coding agents.'',
       ''https://github.com''),
      (''Realtime Design Critique Bot'',
       ''Drop a Figma link and get live critique + code-ready components.'',
       ''https://figma.com''),
      (''CLI to Full SaaS'',
       ''Paste a CLI tool and generate a hosted SaaS with billing and dashboards.'',
       ''https://example.com'')]"

text \<open>
  The loop of \<open>seed\<close> over the samples, each paired with the \<open>_id\<close> the driver generates
  for it. An exception leaves the ideas inserted before it.
\<close>

fun seed_loop ::
  "(string \<Rightarrow> bool) \<Rightarrow> Idea collection \<Rightarrow> datetime \<Rightarrow> (objectid \<times> string \<times> string \<times> string) list
     \<Rightarrow> error option \<times> Idea collection" where
  "seed_loop HttpUrl coll now [] = (None, coll)"
| "seed_loop HttpUrl coll now ((new_id, t, d, l) # rest) =
     (case new_Idea HttpUrl t d (Some l) of
        Inl e \<Rightarrow> (Some e, coll)
      | Inr model \<Rightarrow>
          (case create_document coll new_id now model of
             Inl e \<Rightarrow> (Some e, coll)
           | Inr (idea_id, coll') \<Rightarrow> seed_loop HttpUrl coll' now rest))"

definition seed ::
  "(string \<Rightarrow> bool) \<Rightarrow> database option \<Rightarrow> objectid \<times> objectid \<times> objectid \<Rightarrow> datetime \<Rightarrow> outcome" where
  "seed HttpUrl dbo new_ids now =
     (case dbo of
        None \<Rightarrow> (Inl (HTTPException 500 ''Database not available''), None)
      | Some db \<Rightarrow>
          (let count = length (idea db) in
           if count > 0 then (Inr (SeedStatus ''skipped'' count), Some db)
           else (case new_ids of (id1, id2, id3) \<Rightarrow>
                  (case seed_loop HttpUrl (idea db) now (zip [id1, id2, id3] samples) of
                     (Some e, coll) \<Rightarrow> (Inl e, Some (db\<lparr>idea := coll\<rparr>))
                   | (None, coll) \<Rightarrow>
                       (Inr (SeedStatus ''seeded'' (length samples)),
                        Some (db\<lparr>idea := coll\<rparr>))))))"

section \<open>Runs of the service\<close>

text \<open>
  One request to the service, with the values the environment supplies for it.
\<close>

datatype event =
    Create_idea objectid datetime CreateIdea
  | List_ideas datetime string string int
  | Get_idea string
  | Add_comment objectid datetime CreateComment
  | Vote_idea objectid datetime string Request
  | Seed "objectid \<times> objectid \<times> objectid" datetime

fun handle :: "(string \<Rightarrow> bool) \<Rightarrow> database option \<Rightarrow> event \<Rightarrow> outcome" where
  "handle HttpUrl dbo (Create_idea new_id now payload) = create_idea HttpUrl dbo new_id now payload"
| "handle HttpUrl dbo (List_ideas now timeframe sort' limit) = list_ideas dbo now timeframe sort' limit"
| "handle HttpUrl dbo (Get_idea idea_id) = get_idea dbo idea_id"
| "handle HttpUrl dbo (Add_comment new_id now payload) = add_comment dbo new_id now payload"
| "handle HttpUrl dbo (Vote_idea new_id now idea_id request) = vote_idea dbo new_id now idea_id request"
| "handle HttpUrl dbo (Seed new_ids now) = seed HttpUrl dbo new_ids now"

text \<open>The state after a sequence of requests served one after the other.\<close>

fun run :: "(string \<Rightarrow> bool) \<Rightarrow> database option \<Rightarrow> event list \<Rightarrow> database option" where
  "run HttpUrl dbo [] = dbo"
| "run HttpUrl dbo (ev # evs) = run HttpUrl (snd (handle HttpUrl dbo ev)) evs"

text \<open>The records of a state; a service without a database has none.\<close>

definition ideas :: "database option \<Rightarrow> Idea collection" where
  "ideas dbo = (case dbo of None \<Rightarrow> [] | Some db \<Rightarrow> idea db)"

definition comments :: "database option \<Rightarrow> Comment collection" where
  "comments dbo = (case dbo of None \<Rightarrow> [] | Some db \<Rightarrow> comment db)"

definition votes :: "database option \<Rightarrow> Vote collection" where
  "votes dbo = (case dbo of None \<Rightarrow> [] | Some db \<Rightarrow> vote db)"

section \<open>The properties of the voting core\<close>

text \<open>
  The ideas a record refers to. \<open>post_id\<close> is the string the request carried, and the
  handlers look the idea up under \<open>ObjectId(post_id)\<close>; a record refers to the idea
  with that \<open>_id\<close>.
\<close>

definition votes_for :: "database option \<Rightarrow> objectid \<Rightarrow> Vote collection" where
  "votes_for s key = filter (\<lambda>d. ObjectId (Vote.post_id (snd d)) = Inr key) (votes s)"

definition comments_for :: "database option \<Rightarrow> objectid \<Rightarrow> Comment collection" where
  "comments_for s key = filter (\<lambda>d. ObjectId (Comment.post_id (snd d)) = Inr key) (comments s)"

text \<open>The Vote records of one voter identity.\<close>

definition votes_of_ip :: "database option \<Rightarrow> string \<Rightarrow> Vote collection" where
  "votes_of_ip s a = filter (\<lambda>d. ip (snd d) = a) (votes s)"

text \<open>One vote per ip, over all ideas.\<close>

definition one_vote_per_ip :: "database option \<Rightarrow> bool" where
  "one_vote_per_ip s = distinct (map (\<lambda>d. ip (snd d)) (votes s))"

text \<open>
  The counters agree with the records: the \<open>_id\<close>s of the ideas are distinct, every
  record refers to a stored idea, and every idea's counter is the number of records
  that refer to it.
\<close>

definition refers_to_idea :: "database option \<Rightarrow> string \<Rightarrow> bool" where
  "refers_to_idea s p =
     (case ObjectId p of Inl e \<Rightarrow> False | Inr key \<Rightarrow> key \<in> set (map fst (ideas s)))"

definition votes_consistent :: "database option \<Rightarrow> bool" where
  "votes_consistent s =
     (distinct (map fst (ideas s)) \<and>
      list_all (\<lambda>d. refers_to_idea s (Vote.post_id (snd d))) (votes s) \<and>
      list_all (\<lambda>i. votes_count (snd i) = int (length (votes_for s (fst i)))) (ideas s))"

definition comments_consistent :: "database option \<Rightarrow> bool" where
  "comments_consistent s =
     (distinct (map fst (ideas s)) \<and>
      list_all (\<lambda>d. refers_to_idea s (Comment.post_id (snd d))) (comments s) \<and>
      list_all (\<lambda>i. comments_count (snd i) = int (length (comments_for s (fst i)))) (ideas s))"

text \<open>
  What a request can do to the store: nothing, or insert one idea with both counters
  at \<open>0\<close> under a new \<open>_id\<close>, or insert one comment or one vote for a stored idea and
  add \<open>1\<close> to that idea's counter. A vote is inserted only for an ip that has none.
\<close>

inductive step :: "database \<Rightarrow> database \<Rightarrow> bool" where
  new_idea:
    "i \<notin> set (map fst (idea db)) \<Longrightarrow> votes_count m = 0 \<Longrightarrow> comments_count m = 0 \<Longrightarrow>
     step db (db\<lparr>idea := idea db @ [(i, m)]\<rparr>)"
| new_comment:
    "ObjectId (Comment.post_id c) = Inr key \<Longrightarrow> key \<in> set (map fst (idea db)) \<Longrightarrow>
     step db (db\<lparr>comment := comment db @ [(i, c)],
                 idea := update_one_id (idea db) key
                           (\<lambda>x. x\<lparr>comments_count := comments_count x + 1\<rparr>)\<rparr>)"
| new_vote:
    "ObjectId (Vote.post_id v) = Inr key \<Longrightarrow> key \<in> set (map fst (idea db)) \<Longrightarrow>
     ip v \<notin> set (map (\<lambda>d. ip (snd d)) (vote db)) \<Longrightarrow>
     step db (db\<lparr>vote := vote db @ [(i, v)],
                 idea := update_one_id (idea db) key
                           (\<lambda>x. x\<lparr>votes_count := votes_count x + 1\<rparr>)\<rparr>)"



section \<open>A small instance\<close>

text \<open>
  Two ideas, a voter behind a proxy and a voter without any address, to run the
  handlers on.
\<close>

definition ex_id1 :: objectid where "ex_id1 = 0xaaaaaaaaaaaaaaaaaaaaaaaa"
definition ex_id2 :: objectid where "ex_id2 = 0xbbbbbbbbbbbbbbbbbbbbbbbb"

definition ex_payload :: CreateIdea where
  "ex_payload = \<lparr>CreateIdea.title = ''Idea'', CreateIdea.description = ''A first idea'', CreateIdea.link = None\<rparr>"

definition ex_request :: Request where
  "ex_request = \<lparr>headers = [(''x-forwarded-for'', ''1.2.3.4'')], client = None\<rparr>"

definition ex_anonymous :: Request where
  "ex_anonymous = \<lparr>headers = [], client = None\<rparr>"

definition ex_events :: "event list" where
  "ex_events = [Create_idea ex_id1 0 ex_payload, Create_idea ex_id2 1 ex_payload]"

definition ex_idea :: "datetime \<Rightarrow> int \<Rightarrow> int \<Rightarrow> Idea" where
  "ex_idea t v c = \<lparr>created_at = Some t, updated_at = Some t, Idea.title = ''Idea'',
     Idea.description = ''A first idea'', Idea.link = None, votes_count = v, comments_count = c\<rparr>"

definition ex_db :: database where
  "ex_db = \<lparr>idea = [(ex_id1, ex_idea 0 0 0), (ex_id2, ex_idea 1 0 0)], comment = [], vote = []\<rparr>"

definition ex_vote :: "objectid \<times> Vote" where
  "ex_vote = (7, \<lparr>created_at = Some 2, updated_at = Some 2,
                   Vote.post_id = ''aaaaaaaaaaaaaaaaaaaaaaaa'', ip = ''1.2.3.4''\<rparr>)"

definition ex_db_voted :: database where
  "ex_db_voted = \<lparr>idea = [(ex_id1, ex_idea 0 1 0), (ex_id2, ex_idea 1 0 0)], comment = [],
                   vote = [ex_vote]\<rparr>"

definition ex_vote_events :: "event list" where
  "ex_vote_events = ex_events @ [Vote_idea 7 2 ''aaaaaaaaaaaaaaaaaaaaaaaa'' ex_request]"

definition ex_anon_vote :: "objectid \<times> Vote" where
  "ex_anon_vote = (7, \<lparr>created_at = Some 2, updated_at = Some 2,
                        Vote.post_id = ''aaaaaaaaaaaaaaaaaaaaaaaa'', ip = ''unknown''\<rparr>)"

definition ex_db_anon :: database where
  "ex_db_anon = \<lparr>idea = [(ex_id1, ex_idea 0 1 0), (ex_id2, ex_idea 1 0 0)], comment = [],
                  vote = [ex_anon_vote]\<rparr>"

definition ex_anon_events :: "event list" where
  "ex_anon_events = ex_events @ [Vote_idea 7 2 ''aaaaaaaaaaaaaaaaaaaaaaaa'' ex_anonymous]"


definition ex_comment_payload :: "string \<Rightarrow> CreateComment" where
  "ex_comment_payload p =
     \<lparr>CreateComment.post_id = p, CreateComment.author = ''ann'', CreateComment.text' = ''nice''\<rparr>"





section \<open>Collections and identifiers\<close>

lemma ideas_Some [simp]: "ideas (Some db) = idea db" and ideas_None [simp]: "ideas None = []"
  by (simp_all add: ideas_def)

lemma votes_Some [simp]: "votes (Some db) = vote db" and votes_None [simp]: "votes None = []"
  by (simp_all add: votes_def)

lemma comments_Some [simp]: "comments (Some db) = comment db" and comments_None [simp]: "comments None = []"
  by (simp_all add: comments_def)

lemma map_fst_update_one_id: "map fst (update_one_id coll key f) = map fst coll"
  by (induction coll) auto

lemma update_one_id_distinct:
  "distinct (map fst coll) \<Longrightarrow>
   update_one_id coll key f = map (\<lambda>d. if fst d = key then (fst d, f (snd d)) else d) coll"
proof (induction coll)
  case Nil
  then show ?case by simp
next
  case (Cons d ds)
  have "map (\<lambda>x. if fst x = fst d then (fst x, f (snd x)) else x) ds = ds"
    using Cons.prems by (intro map_idI) (auto simp: rev_image_eqI)
  with Cons show ?case by auto
qed

lemma update_one_id_set:
  "distinct (map fst coll) \<Longrightarrow>
   set (update_one_id coll key f) = (\<lambda>d. if fst d = key then (fst d, f (snd d)) else d) ` set coll"
  by (simp add: update_one_id_distinct)

lemma find_one_id_None: "find_one_id coll key = None \<longleftrightarrow> key \<notin> set (map fst coll)"
  by (force simp: find_one_id_def find_None_iff)

lemma find_one_id_Some: "find_one_id coll key = Some d \<Longrightarrow> d \<in> set coll \<and> fst d = key"
  by (auto simp: find_one_id_def find_Some_iff)

lemma find_one_id_mem: "find_one_id coll key = Some d \<Longrightarrow> key \<in> fst ` set coll"
  by (force dest: find_one_id_Some)

lemma find_one_id_in: "key \<in> set (map fst coll) \<Longrightarrow> \<exists>d. find_one_id coll key = Some d"
  using find_one_id_None [of coll key] by (cases "find_one_id coll key") auto

lemma find_one_id_append_new:
  "i \<notin> set (map fst coll) \<Longrightarrow> find_one_id (coll @ [(i, x)]) i = Some (i, x)"
  by (induction coll) (auto simp: find_one_id_def)

lemma find_one_id_update_same:
  "find_one_id coll key = Some found \<Longrightarrow>
   find_one_id (update_one_id coll key f) key = Some (key, f (snd found))"
  by (induction coll) (auto simp: find_one_id_def split: if_splits)

lemma find_one_id_update_other:
  "k \<noteq> key \<Longrightarrow> find_one_id (update_one_id coll key f) k = find_one_id coll k"
  by (induction coll) (auto simp: find_one_id_def)

lemma find_one_ip_None: "find_one_ip coll a = None \<longleftrightarrow> a \<notin> set (map (\<lambda>d. ip (snd d)) coll)"
  by (force simp: find_one_ip_def find_None_iff)

lemma find_one_ip_Some: "find_one_ip coll a = Some d \<Longrightarrow> d \<in> set coll \<and> ip (snd d) = a"
  by (auto simp: find_one_ip_def find_Some_iff)

lemma find_one_ip_append_new:
  "a \<notin> set (map (\<lambda>d. ip (snd d)) xs) \<Longrightarrow> ip (snd x) = a \<Longrightarrow>
   find_one_ip (xs @ [x]) a = Some x"
  by (induction xs) (auto simp: find_one_ip_def)

text \<open>At most one record per key, said with a count.\<close>

lemma filter_key_empty: "k \<notin> set (map f xs) \<Longrightarrow> filter (\<lambda>y. f y = k) xs = []"
  by (induction xs) auto

lemma distinct_count_le_1:
  "distinct (map f xs) \<longleftrightarrow> (\<forall>v. length (filter (\<lambda>x. f x = v) xs) \<le> 1)"
proof (induction xs)
  case Nil
  then show ?case by simp
next
  case (Cons x xs)
  show ?case
  proof
    assume d: "distinct (map f (x # xs))"
    then have "filter (\<lambda>y. f y = f x) xs = []"
      by (intro filter_key_empty) simp
    with d Cons show "\<forall>v. length (filter (\<lambda>y. f y = v) (x # xs)) \<le> 1" by auto
  next
    assume c: "\<forall>v. length (filter (\<lambda>y. f y = v) (x # xs)) \<le> 1"
    then have "length (filter (\<lambda>y. f y = f x) (x # xs)) \<le> 1" by blast
    then have "filter (\<lambda>y. f y = f x) xs = []" by simp
    then have "f x \<notin> set (map f xs)" by (auto simp: filter_empty_conv)
    moreover have "\<forall>v. length (filter (\<lambda>y. f y = v) xs) \<le> 1"
    proof
      fix v
      from c have "length (filter (\<lambda>y. f y = v) (x # xs)) \<le> 1" by blast
      then show "length (filter (\<lambda>y. f y = v) xs) \<le> 1" by (simp split: if_splits)
    qed
    ultimately show "distinct (map f (x # xs))" using Cons by simp
  qed
qed

lemma distinct_filter_single:
  "distinct (map f xs) \<Longrightarrow> x \<in> set xs \<Longrightarrow> filter (\<lambda>y. f y = f x) xs = [x]"
proof (induction xs)
  case Nil
  then show ?case by simp
next
  case (Cons y ys)
  show ?case
  proof (cases "x = y")
    case True
    with Cons.prems have "filter (\<lambda>z. f z = f x) ys = []"
      by (intro filter_key_empty) simp
    with True show ?thesis by simp
  next
    case False
    with Cons.prems have "x \<in> set ys" "f y \<noteq> f x" by auto
    with Cons show ?thesis by simp
  qed
qed

text \<open>
  \<open>ObjectId(str(oid)) == oid\<close>: the string of an \<open>_id\<close> is read back as that \<open>_id\<close>.
\<close>

lemma hexval_hexdigit: "d < 16 \<Longrightarrow> hexval (hexdigit d) = Some d"
proof -
  have "\<forall>d\<in>{..<16}. hexval (hexdigit d) = Some d"
    by (simp add: lessThan_nat_numeral lessThan_Suc hexdigit_def)
  then show "d < 16 \<Longrightarrow> hexval (hexdigit d) = Some d" by simp
qed

lemma fromhex_digits:
  "fromhex acc (map (\<lambda>i. hexdigit (n div 16 ^ (k - 1 - i) mod 16)) [0..<k]) =
     Some (acc * 16 ^ k + n mod 16 ^ k)"
proof (induction k arbitrary: acc)
  case 0
  then show ?case by simp
next
  case (Suc k)
  have split: "[0..<Suc k] = 0 # map Suc [0..<k]"
    by (simp add: upt_conv_Cons map_Suc_upt)
  have digit: "hexval (hexdigit (n div 16 ^ k mod 16)) = Some (n div 16 ^ k mod 16)"
    by (rule hexval_hexdigit) simp
  have arith: "n mod (16 ^ k * 16) = 16 ^ k * (n div 16 ^ k mod 16) + n mod 16 ^ k"
    by (rule mod_mult2_eq)
  have "fromhex acc (map (\<lambda>i. hexdigit (n div 16 ^ (Suc k - 1 - i) mod 16)) [0..<Suc k]) =
        fromhex (16 * acc + n div 16 ^ k mod 16)
          (map (\<lambda>i. hexdigit (n div 16 ^ (k - 1 - i) mod 16)) [0..<k])"
    unfolding split by (simp add: digit comp_def del: hexval.simps)
  also have "\<dots> = Some ((16 * acc + n div 16 ^ k mod 16) * 16 ^ k + n mod 16 ^ k)"
    by (rule Suc.IH)
  also have "(16 * acc + n div 16 ^ k mod 16) * 16 ^ k + n mod 16 ^ k =
             acc * 16 ^ Suc k + n mod 16 ^ Suc k"
    using arith by (simp add: algebra_simps)
  finally show ?case .
qed

lemma length_str: "length (str w) = 24"
  by (simp add: str_def)

lemma ObjectId_str: "ObjectId (str w) = Inr w"
proof -
  have "unat w < 2 ^ 96" using unsigned_less [of w] by simp
  also have "(2::nat) ^ 96 = 16 ^ 24" by simp
  finally have small: "unat w mod 16 ^ 24 = unat w" by simp
  have "fromhex 0 (str w) = Some (0 * 16 ^ 24 + unat w mod 16 ^ 24)"
    unfolding str_def using fromhex_digits [of 0 "unat w" 24] by simp
  with small have "fromhex 0 (str w) = Some (unat w)" by simp
  then show ?thesis by (simp add: ObjectId_def length_str)
qed



section \<open>What the handlers do to the store\<close>

lemma list_ideas_state: "snd (list_ideas s now tf so li) = s"
  by (auto simp: list_ideas_def Let_def split: option.splits)

lemma get_idea_state: "snd (get_idea s idea_id) = s"
  by (auto simp: get_idea_def Let_def split: option.splits sum.splits)

lemma create_idea_state:
  "snd (create_idea H s i now p) = s \<or>
   (\<exists>db. s = Some db \<and> i \<notin> set (map fst (idea db)) \<and>
      snd (create_idea H s i now p) =
        Some (db\<lparr>idea := idea db @
                [(i, \<lparr>created_at = Some now, updated_at = Some now,
                       Idea.title = CreateIdea.title p,
                       Idea.description = CreateIdea.description p,
                       Idea.link = CreateIdea.link p,
                       votes_count = 0, comments_count = 0\<rparr>)]\<rparr>))"
  by (auto simp: create_idea_def create_document_def new_Idea_def Let_def
      split: option.splits sum.splits prod.splits if_splits)

lemma vote_idea_state:
  "snd (vote_idea s i now idea_id r) = s \<or>
   (\<exists>db key. s = Some db \<and> ObjectId idea_id = Inr key \<and> key \<in> set (map fst (idea db)) \<and>
      client_ip r \<notin> set (map (\<lambda>d. ip (snd d)) (vote db)) \<and>
      snd (vote_idea s i now idea_id r) =
        Some (db\<lparr>vote := vote db @ [(i, (new_Vote idea_id (client_ip r))
                                          \<lparr>created_at := Some now, updated_at := Some now\<rparr>)],
                 idea := update_one_id (idea db) key (\<lambda>i. i\<lparr>votes_count := votes_count i + 1\<rparr>)\<rparr>))"
  by (auto simp: vote_idea_def create_document_def Let_def find_one_ip_None
      dest: find_one_id_mem split: option.splits sum.splits prod.splits if_splits)

lemma add_comment_state:
  "snd (add_comment s i now p) = s \<or>
   (\<exists>db key. s = Some db \<and> ObjectId (CreateComment.post_id p) = Inr key \<and> key \<in> set (map fst (idea db)) \<and>
      snd (add_comment s i now p) =
        Some (db\<lparr>comment := comment db @
                   [(i, \<lparr>created_at = Some now, updated_at = Some now,
                          Comment.post_id = CreateComment.post_id p,
                          Comment.author = CreateComment.author p,
                          Comment.text' = CreateComment.text' p\<rparr>)],
                 idea := update_one_id (idea db) key (\<lambda>i. i\<lparr>comments_count := comments_count i + 1\<rparr>)\<rparr>))"
  by (auto simp: add_comment_def create_document_def new_Comment_def Let_def
      dest: find_one_id_mem split: option.splits sum.splits prod.splits if_splits)

subsection \<open>The outcomes of the handlers, branch by branch\<close>

lemma create_idea_inserts:
  assumes "valid_CreateIdea p"
    and "case CreateIdea.link p of None \<Rightarrow> True | Some u \<Rightarrow> H u"
    and "i \<notin> set (map fst (idea db))"
  shows "snd (create_idea H (Some db) i now p) =
           Some (db\<lparr>idea := idea db @
                   [(i, \<lparr>created_at = Some now, updated_at = Some now,
                          Idea.title = CreateIdea.title p,
                          Idea.description = CreateIdea.description p,
                          Idea.link = CreateIdea.link p,
                          votes_count = 0, comments_count = 0\<rparr>)]\<rparr>)"
  using assms
  by (auto simp: create_idea_def create_document_def new_Idea_def valid_CreateIdea_def Let_def
      split: option.splits sum.splits)

lemma create_idea_created:
  assumes "valid_CreateIdea p"
    and "case CreateIdea.link p of None \<Rightarrow> True | Some u \<Rightarrow> H u"
    and "i \<notin> set (map fst (idea db))"
  shows "fst (create_idea H (Some db) i now p) =
           Inr (IdeaDoc (str i, \<lparr>created_at = Some now, updated_at = Some now,
                                  Idea.title = CreateIdea.title p,
                                  Idea.description = CreateIdea.description p,
                                  Idea.link = CreateIdea.link p,
                                  votes_count = 0, comments_count = 0\<rparr>))"
  using assms
  by (auto simp: create_idea_def create_document_def new_Idea_def valid_CreateIdea_def Let_def
      ObjectId_str find_one_id_append_new serialize_doc_def split: option.splits)

lemma vote_idea_invalid_id:
  "ObjectId idea_id = Inl e \<Longrightarrow> vote_idea (Some db) i now idea_id r = (Inl e, Some db)"
  by (simp add: vote_idea_def)

lemma vote_idea_not_found:
  "ObjectId idea_id = Inr key \<Longrightarrow> key \<notin> set (map fst (idea db)) \<Longrightarrow>
   vote_idea (Some db) i now idea_id r = (Inl (HTTPException 404 ''Idea not found''), Some db)"
  using find_one_id_None [of "idea db" key] by (simp add: vote_idea_def Let_def)

lemma vote_idea_existing_vote:
  assumes "ObjectId idea_id = Inr key" and "key \<in> set (map fst (idea db))"
    and "find_one_ip (vote db) (client_ip r) = Some d"
  shows "vote_idea (Some db) i now idea_id r =
           (if Vote.post_id (snd d) = idea_id
            then (Inr (VoteStatus ''already_voted'' (client_ip r)), Some db)
            else (Inl (HTTPException 403 ''This IP has already voted for another idea''), Some db))"
proof -
  from find_one_id_in [OF assms(2)] obtain found where "find_one_id (idea db) key = Some found" ..
  with assms(1,3) show ?thesis by (simp add: vote_idea_def Let_def)
qed

lemma vote_idea_new_vote:
  assumes "ObjectId idea_id = Inr key" and "key \<in> set (map fst (idea db))"
    and "client_ip r \<notin> set (map (\<lambda>d. ip (snd d)) (vote db))"
    and "i \<notin> set (map fst (vote db))"
  shows "vote_idea (Some db) i now idea_id r =
           (Inr (VoteStatus ''ok'' (client_ip r)),
            Some (db\<lparr>vote := vote db @
                       [(i, \<lparr>created_at = Some now, updated_at = Some now,
                              Vote.post_id = idea_id, ip = client_ip r\<rparr>)],
                     idea := update_one_id (idea db) key
                               (\<lambda>x. x\<lparr>votes_count := votes_count x + 1\<rparr>)\<rparr>))"
proof -
  from find_one_id_in [OF assms(2)] obtain found where "find_one_id (idea db) key = Some found" ..
  moreover from assms(3) have "find_one_ip (vote db) (client_ip r) = None"
    by (simp add: find_one_ip_None)
  ultimately show ?thesis
    using assms(1,4) by (simp add: vote_idea_def create_document_def new_Vote_def Let_def)
qed

lemma vote_idea_ok_branch:
  assumes "fst (vote_idea (Some db) i n idea_id r) = Inr (VoteStatus ''ok'' a)"
  shows "\<exists>key. ObjectId idea_id = Inr key \<and> key \<in> set (map fst (idea db)) \<and>
           client_ip r \<notin> set (map (\<lambda>d. ip (snd d)) (vote db)) \<and>
           i \<notin> set (map fst (vote db)) \<and> a = client_ip r"
  using assms
  by (auto simp: vote_idea_def create_document_def Let_def find_one_ip_None
      dest: find_one_id_mem split: sum.splits option.splits if_splits)

lemma add_comment_invalid_id:
  "valid_CreateComment p \<Longrightarrow> ObjectId (CreateComment.post_id p) = Inl e \<Longrightarrow>
   add_comment (Some db) i now p = (Inl e, Some db)"
  by (simp add: add_comment_def)

lemma add_comment_not_found:
  "valid_CreateComment p \<Longrightarrow> ObjectId (CreateComment.post_id p) = Inr key \<Longrightarrow>
   key \<notin> set (map fst (idea db)) \<Longrightarrow>
   add_comment (Some db) i now p = (Inl (HTTPException 404 ''Idea not found''), Some db)"
  using find_one_id_None [of "idea db" key] by (simp add: add_comment_def)



subsection \<open>Every request is a sequence of steps\<close>

lemma handle_None: "snd (handle H None ev) = None"
  by (cases ev)
     (auto simp: create_idea_def list_ideas_def get_idea_def add_comment_def vote_idea_def seed_def)

lemma seed_loop_steps:
  "seed_loop H coll now xs = (e, coll') \<Longrightarrow> idea db = coll \<Longrightarrow>
   step\<^sup>*\<^sup>* db (db\<lparr>idea := coll'\<rparr>)"
proof (induction xs arbitrary: coll db)
  case Nil
  then show ?case by auto
next
  case (Cons x xs)
  obtain i t d l where x: "x = (i, t, d, l)" by (cases x) auto
  show ?case
  proof (cases "new_Idea H t d (Some l)")
    case (Inl err)
    with Cons.prems x show ?thesis by auto
  next
    case (Inr m)
    show ?thesis
    proof (cases "i \<in> set (map fst coll)")
      case True
      with Cons.prems x Inr show ?thesis by (auto simp: create_document_def)
    next
      case False
      let ?m = "m\<lparr>created_at := Some now, updated_at := Some now\<rparr>"
      let ?db = "db\<lparr>idea := idea db @ [(i, ?m)]\<rparr>"
      from Inr have zero: "votes_count ?m = 0" "comments_count ?m = 0"
        by (auto simp: new_Idea_def split: if_splits)
      from False Cons.prems have "step db ?db"
        using zero by (intro step.new_idea) auto
      moreover from Cons.prems x Inr False
      have "seed_loop H (coll @ [(i, ?m)]) now xs = (e, coll')"
        by (auto simp: create_document_def)
      then have "step\<^sup>*\<^sup>* ?db (?db\<lparr>idea := coll'\<rparr>)"
        using Cons.prems by (intro Cons.IH) auto
      ultimately show ?thesis by simp
    qed
  qed
qed

lemma handle_steps:
  "\<exists>db'. snd (handle H (Some db) ev) = Some db' \<and> step\<^sup>*\<^sup>* db db'"
proof (cases ev)
  case (Create_idea i now p)
  from create_idea_state [of H "Some db" i now p] show ?thesis
    unfolding Create_idea by (auto intro!: r_into_rtranclp step.new_idea)
next
  case (List_ideas now tf so li)
  then show ?thesis by (simp add: list_ideas_state)
next
  case (Get_idea idea_id)
  then show ?thesis by (simp add: get_idea_state)
next
  case (Add_comment i now p)
  from add_comment_state [of "Some db" i now p] show ?thesis
    unfolding Add_comment by (force intro!: r_into_rtranclp step.new_comment)
next
  case (Vote_idea i now idea_id r)
  from vote_idea_state [of "Some db" i now idea_id r] show ?thesis
    unfolding Vote_idea by (force simp: new_Vote_def intro!: r_into_rtranclp step.new_vote)
next
  case (Seed ids now)
  obtain i1 i2 i3 where ids: "ids = (i1, i2, i3)" by (cases ids) auto
  obtain e coll' where sl: "seed_loop H (idea db) now (zip [i1, i2, i3] samples) = (e, coll')"
    by (cases "seed_loop H (idea db) now (zip [i1, i2, i3] samples)") auto
  from seed_loop_steps [OF sl refl] have "step\<^sup>*\<^sup>* db (db\<lparr>idea := coll'\<rparr>)" .
  with sl show ?thesis
    unfolding Seed ids by (cases e) (auto simp: seed_def Let_def)
qed

lemma run_None: "run H None evs = None"
  by (induction evs) (auto simp: handle_None)

lemma run_steps: "\<exists>db'. run H (Some db) evs = Some db' \<and> step\<^sup>*\<^sup>* db db'"
proof (induction evs arbitrary: db)
  case Nil
  then show ?case by simp
next
  case (Cons ev evs)
  from handle_steps [of H db ev] obtain db1 where
    h: "snd (handle H (Some db) ev) = Some db1" and s1: "step\<^sup>*\<^sup>* db db1" by blast
  from Cons.IH [of db1] obtain db' where
    r: "run H (Some db1) evs = Some db'" and s2: "step\<^sup>*\<^sup>* db1 db'" by blast
  from h r s1 s2 show ?case by auto
qed

section \<open>Invariants\<close>

lemma step_ideas_ids: "step db db' \<Longrightarrow> set (map fst (idea db)) \<subseteq> set (map fst (idea db'))"
  by (induction rule: step.induct) (auto simp: map_fst_update_one_id)

lemma step_votes_grow: "step db db' \<Longrightarrow> set (vote db) \<subseteq> set (vote db')"
  by (induction rule: step.induct) auto

lemma step_one_vote_per_ip:
  "step db db' \<Longrightarrow> one_vote_per_ip (Some db) \<Longrightarrow> one_vote_per_ip (Some db')"
  by (induction rule: step.induct) (auto simp: one_vote_per_ip_def)

lemma votes_for_Some: "votes_for (Some db) key = filter (\<lambda>d. ObjectId (Vote.post_id (snd d)) = Inr key) (vote db)"
  by (simp add: votes_for_def)

lemma comments_for_Some: "comments_for (Some db) key = filter (\<lambda>d. ObjectId (Comment.post_id (snd d)) = Inr key) (comment db)"
  by (simp add: comments_for_def)

lemma step_votes_consistent:
  "step db db' \<Longrightarrow> votes_consistent (Some db) \<Longrightarrow> votes_consistent (Some db')"
proof (induction rule: step.induct)
  case (new_idea i db m)
  then show ?case
    by (auto simp: votes_consistent_def list_all_iff refers_to_idea_def votes_for_Some
        filter_empty_conv split: sum.splits)
next
  case (new_comment c key db i)
  then show ?case
    by (auto simp: votes_consistent_def list_all_iff refers_to_idea_def votes_for_Some
        map_fst_update_one_id update_one_id_set split: sum.splits)
next
  case (new_vote v key db i)
  then show ?case
    by (auto simp: votes_consistent_def list_all_iff refers_to_idea_def votes_for_Some
        map_fst_update_one_id update_one_id_set split: sum.splits)
qed

lemma step_comments_consistent:
  "step db db' \<Longrightarrow> comments_consistent (Some db) \<Longrightarrow> comments_consistent (Some db')"
proof (induction rule: step.induct)
  case (new_idea i db m)
  then show ?case
    by (auto simp: comments_consistent_def list_all_iff refers_to_idea_def comments_for_Some
        filter_empty_conv split: sum.splits)
next
  case (new_comment c key db i)
  then show ?case
    by (auto simp: comments_consistent_def list_all_iff refers_to_idea_def comments_for_Some
        map_fst_update_one_id update_one_id_set split: sum.splits)
next
  case (new_vote v key db i)
  then show ?case
    by (auto simp: comments_consistent_def list_all_iff refers_to_idea_def comments_for_Some
        map_fst_update_one_id update_one_id_set split: sum.splits)
qed

lemma steps_one_vote_per_ip:
  "step\<^sup>*\<^sup>* db db' \<Longrightarrow> one_vote_per_ip (Some db) \<Longrightarrow> one_vote_per_ip (Some db')"
  by (induction rule: rtranclp_induct) (auto intro: step_one_vote_per_ip)

lemma steps_votes_consistent:
  "step\<^sup>*\<^sup>* db db' \<Longrightarrow> votes_consistent (Some db) \<Longrightarrow> votes_consistent (Some db')"
  by (induction rule: rtranclp_induct) (auto intro: step_votes_consistent)

lemma steps_comments_consistent:
  "step\<^sup>*\<^sup>* db db' \<Longrightarrow> comments_consistent (Some db) \<Longrightarrow> comments_consistent (Some db')"
  by (induction rule: rtranclp_induct) (auto intro: step_comments_consistent)

lemma steps_votes_grow: "step\<^sup>*\<^sup>* db db' \<Longrightarrow> set (vote db) \<subseteq> set (vote db')"
  by (induction rule: rtranclp_induct) (auto dest: step_votes_grow)

lemma handle_one_vote_per_ip: "one_vote_per_ip s \<Longrightarrow> one_vote_per_ip (snd (handle H s ev))"
proof (cases s)
  case None
  then show ?thesis by (simp add: handle_None one_vote_per_ip_def)
next
  case (Some db)
  assume "one_vote_per_ip s"
  with Some handle_steps [of H db ev] show ?thesis
    by (auto dest: steps_one_vote_per_ip)
qed

lemma handle_votes_consistent: "votes_consistent s \<Longrightarrow> votes_consistent (snd (handle H s ev))"
proof (cases s)
  case None
  then show ?thesis by (simp add: handle_None votes_consistent_def)
next
  case (Some db)
  assume "votes_consistent s"
  with Some handle_steps [of H db ev] show ?thesis
    by (auto dest: steps_votes_consistent)
qed

lemma handle_comments_consistent:
  "comments_consistent s \<Longrightarrow> comments_consistent (snd (handle H s ev))"
proof (cases s)
  case None
  then show ?thesis by (simp add: handle_None comments_consistent_def)
next
  case (Some db)
  assume "comments_consistent s"
  with Some handle_steps [of H db ev] show ?thesis
    by (auto dest: steps_comments_consistent)
qed

lemma run_one_vote_per_ip: "one_vote_per_ip s \<Longrightarrow> one_vote_per_ip (run H s evs)"
  by (induction evs arbitrary: s) (auto intro: handle_one_vote_per_ip)

lemma run_votes_consistent: "votes_consistent s \<Longrightarrow> votes_consistent (run H s evs)"
  by (induction evs arbitrary: s) (auto intro: handle_votes_consistent)

lemma run_comments_consistent: "comments_consistent s \<Longrightarrow> comments_consistent (run H s evs)"
  by (induction evs arbitrary: s) (auto intro: handle_comments_consistent)

lemma run_votes_grow: "set (votes s) \<subseteq> set (votes (run H s evs))"
proof (cases s)
  case None
  then show ?thesis by (simp add: run_None)
next
  case (Some db)
  with run_steps [of H db evs] steps_votes_grow [of db] show ?thesis
    by fastforce
qed

lemma initial_invariants:
  "one_vote_per_ip (Some empty_db)" "votes_consistent (Some empty_db)"
  "comments_consistent (Some empty_db)"
  by (simp_all add: one_vote_per_ip_def votes_consistent_def comments_consistent_def empty_db_def)

lemma reachable_invariants:
  "one_vote_per_ip (run H (Some empty_db) evs)"
  "votes_consistent (run H (Some empty_db) evs)"
  "comments_consistent (run H (Some empty_db) evs)"
  by (simp_all add: run_one_vote_per_ip run_votes_consistent run_comments_consistent
      initial_invariants)

lemma run_append: "run H s (evs @ evs') = run H (run H s evs) evs'"
  by (induction evs arbitrary: s) auto

lemma one_vote_per_ip_count:
  "one_vote_per_ip s \<longleftrightarrow> (\<forall>v. length (votes_of_ip s v) \<le> 1)"
  unfolding one_vote_per_ip_def votes_of_ip_def by (rule distinct_count_le_1)

lemma one_vote_find:
  "one_vote_per_ip (Some db) \<Longrightarrow> d \<in> set (vote db) \<Longrightarrow>
   find_one_ip (vote db) (ip (snd d)) = Some d"
proof -
  assume inv: "one_vote_per_ip (Some db)" and d: "d \<in> set (vote db)"
  then obtain d' where f: "find_one_ip (vote db) (ip (snd d)) = Some d'"
    using find_one_ip_None [of "vote db" "ip (snd d)"]
    by (cases "find_one_ip (vote db) (ip (snd d))") auto
  from find_one_ip_Some [OF f] have "d' \<in> set (vote db)" "ip (snd d') = ip (snd d)" by auto
  with inv d have "d' = d"
    by (auto simp: one_vote_per_ip_def distinct_map inj_on_def)
  with f show ?thesis by simp
qed



section \<open>The instance, evaluated\<close>


lemma ObjectId_lower: "ObjectId ''aaaaaaaaaaaaaaaaaaaaaaaa'' = Inr ex_id1"
  by (simp add: ObjectId_def ex_id1_def)


lemma ObjectId_b: "ObjectId ''bbbbbbbbbbbbbbbbbbbbbbbb'' = Inr ex_id2"
  by (simp add: ObjectId_def ex_id2_def)

lemma ex_ids_neq: "ex_id1 \<noteq> ex_id2"
  by (simp add: ex_id1_def ex_id2_def)

lemma run_ex_events: "run H (Some empty_db) ex_events = Some ex_db"
  by (simp add: ex_events_def ex_db_def ex_idea_def ex_payload_def empty_db_def
      create_idea_inserts valid_CreateIdea_def ex_id1_def ex_id2_def)

lemma client_ip_ex_request: "client_ip ex_request = ''1.2.3.4''"
  by (simp add: client_ip_def ex_request_def strip_def split_comma_first_def isspace_def)

lemma client_ip_ex_anonymous: "client_ip ex_anonymous = ''unknown''"
  by (simp add: client_ip_def ex_anonymous_def)

lemma run_ex_vote_events: "run H (Some empty_db) ex_vote_events = Some ex_db_voted"
  by (simp add: ex_vote_events_def run_append run_ex_events vote_idea_new_vote [OF ObjectId_lower]
      client_ip_ex_request ex_db_def ex_db_voted_def ex_vote_def ex_idea_def ex_ids_neq)

lemma run_ex_anon_events: "run H (Some empty_db) ex_anon_events = Some ex_db_anon"
  by (simp add: ex_anon_events_def run_append run_ex_events vote_idea_new_vote [OF ObjectId_lower]
      client_ip_ex_anonymous ex_db_def ex_db_anon_def ex_anon_vote_def ex_idea_def ex_ids_neq)


lemma valid_ex_comment_payload: "valid_CreateComment (ex_comment_payload p)"
  by (simp add: valid_CreateComment_def ex_comment_payload_def)

lemma fields_ex_comment_payload:
  "CreateComment.post_id (ex_comment_payload p) = p"
  "CreateComment.author (ex_comment_payload p) = ''ann''"
  "CreateComment.text' (ex_comment_payload p) = ''nice''"
  by (simp_all add: ex_comment_payload_def)



section \<open>The claims\<close>

text \<open>
  C1. A vote for a stored idea from an ip that has no Vote record inserts exactly one
  Vote record, with \<open>post_id\<close> the idea id of the request and \<open>ip\<close> the voter's ip, adds
  exactly 1 to the \<open>votes_count\<close> of that idea and of no other, and answers
  \<open>{"status": "ok", "ip": ip}\<close>.
\<close>

theorem vote_idea_records_first_vote:
  assumes "ObjectId idea_id = Inr key"
    and "key \<in> set (map fst (idea db))"
    and "votes_of_ip (Some db) (client_ip request) = []"
    and "new_id \<notin> set (map fst (vote db))"
  shows "\<exists>db' found.
           vote_idea (Some db) new_id now idea_id request =
             (Inr (VoteStatus ''ok'' (client_ip request)), Some db') \<and>
           vote db' = vote db @
             [(new_id, \<lparr>created_at = Some now, updated_at = Some now,
                        Vote.post_id = idea_id, ip = client_ip request\<rparr>)] \<and>
           comment db' = comment db \<and>
           map fst (idea db') = map fst (idea db) \<and>
           find_one_id (idea db) key = Some found \<and>
           find_one_id (idea db') key =
             Some (key, (snd found)\<lparr>votes_count := votes_count (snd found) + 1\<rparr>) \<and>
           (\<forall>k. k \<noteq> key \<longrightarrow> find_one_id (idea db') k = find_one_id (idea db) k)"
proof -
  let ?inc = "\<lambda>x::Idea. x\<lparr>votes_count := votes_count x + 1\<rparr>"
  let ?v = "\<lparr>created_at = Some now, updated_at = Some now,
              Vote.post_id = idea_id, ip = client_ip request\<rparr>"
  let ?db' = "db\<lparr>vote := vote db @ [(new_id, ?v)], idea := update_one_id (idea db) key ?inc\<rparr>"
  from assms(3) have fresh: "client_ip request \<notin> set (map (\<lambda>d. ip (snd d)) (vote db))"
    by (auto simp: votes_of_ip_def filter_empty_conv)
  from find_one_id_in [OF assms(2)] obtain found where
    found: "find_one_id (idea db) key = Some found" ..
  have res: "vote_idea (Some db) new_id now idea_id request =
      (Inr (VoteStatus ''ok'' (client_ip request)), Some ?db')"
    by (rule vote_idea_new_vote [OF assms(1,2) fresh assms(4)])
  have upd: "find_one_id (update_one_id (idea db) key ?inc) key = Some (key, ?inc (snd found))"
    using found by (rule find_one_id_update_same)
  have other: "\<forall>k. k \<noteq> key \<longrightarrow>
      find_one_id (update_one_id (idea db) key ?inc) k = find_one_id (idea db) k"
    by (simp add: find_one_id_update_other)
  show ?thesis
    using res found upd other
    by (intro exI [of _ ?db'] exI [of _ found]) (simp add: map_fst_update_one_id)
qed

theorem vote_idea_records_first_vote_witness:
  "ObjectId ''aaaaaaaaaaaaaaaaaaaaaaaa'' = Inr ex_id1 \<and>
   ex_id1 \<in> set (map fst (idea ex_db)) \<and>
   votes_of_ip (Some ex_db) (client_ip ex_request) = [] \<and>
   7 \<notin> set (map fst (vote ex_db)) \<and>
   vote_idea (Some ex_db) 7 2 ''aaaaaaaaaaaaaaaaaaaaaaaa'' ex_request =
     (Inr (VoteStatus ''ok'' ''1.2.3.4''), Some ex_db_voted)"
proof -
  have h1: "ObjectId ''aaaaaaaaaaaaaaaaaaaaaaaa'' = Inr ex_id1" by (rule ObjectId_lower)
  have h2: "ex_id1 \<in> set (map fst (idea ex_db))" by (simp add: ex_db_def)
  have h3: "votes_of_ip (Some ex_db) (client_ip ex_request) = []"
    by (simp add: votes_of_ip_def ex_db_def)
  have h4: "7 \<notin> set (map fst (vote ex_db))" by (simp add: ex_db_def)
  from vote_idea_records_first_vote [OF h1 h2 h3 h4, of 2]
  obtain db' found where
    r: "vote_idea (Some ex_db) 7 2 ''aaaaaaaaaaaaaaaaaaaaaaaa'' ex_request =
          (Inr (VoteStatus ''ok'' (client_ip ex_request)), Some db')"
    by blast
  have "vote_idea (Some ex_db) 7 2 ''aaaaaaaaaaaaaaaaaaaaaaaa'' ex_request =
          (Inr (VoteStatus ''ok'' ''1.2.3.4''), Some ex_db_voted)"
    using r
    by (simp add: vote_idea_new_vote [OF h1] client_ip_ex_request ex_db_def ex_db_voted_def
        ex_vote_def ex_idea_def ex_ids_neq)
  with h1 h2 h3 h4 show ?thesis by blast
qed

text \<open>
  C2. In every state the service can reach, a vote from an ip that has a Vote record
  whose \<open>post_id\<close> is the idea id of the request answers \<open>"already_voted"\<close> and leaves
  the store as it is: no Vote record is inserted and no counter moves. In particular,
  after a vote that was recorded (\<open>"ok"\<close>), the same vote again answers
  \<open>"already_voted"\<close> and the store stays as the first vote left it.
\<close>

theorem vote_idea_same_idea_again:
  "(s = run H (Some empty_db) evs \<and> d \<in> set (votes s) \<and> ip (snd d) = client_ip request \<and>
    Vote.post_id (snd d) = idea_id \<longrightarrow>
      vote_idea s new_id now idea_id request =
        (Inr (VoteStatus ''already_voted'' (client_ip request)), s)) \<and>
   (fst (vote_idea (Some db) i n idea_id request) = Inr (VoteStatus ''ok'' (client_ip request)) \<longrightarrow>
      vote_idea (snd (vote_idea (Some db) i n idea_id request)) i' n' idea_id request =
        (Inr (VoteStatus ''already_voted'' (client_ip request)),
         snd (vote_idea (Some db) i n idea_id request)))"
proof (intro conjI impI)
  assume a: "s = run H (Some empty_db) evs \<and> d \<in> set (votes s) \<and>
    ip (snd d) = client_ip request \<and> Vote.post_id (snd d) = idea_id"
  from run_steps [of H empty_db evs] a obtain db1 where s: "s = Some db1" by auto
  from a have inv: "one_vote_per_ip s" "votes_consistent s"
    by (simp_all add: reachable_invariants)
  from a s have d: "d \<in> set (vote db1)" by simp
  from inv(2) d s a have "refers_to_idea (Some db1) idea_id"
    by (auto simp: votes_consistent_def list_all_iff)
  then obtain key where key: "ObjectId idea_id = Inr key" "key \<in> set (map fst (idea db1))"
    by (auto simp: refers_to_idea_def split: sum.splits)
  from one_vote_find [of db1 d] inv(1) d s a
  have "find_one_ip (vote db1) (client_ip request) = Some d" by simp
  from vote_idea_existing_vote [OF key this] a s
  show "vote_idea s new_id now idea_id request =
          (Inr (VoteStatus ''already_voted'' (client_ip request)), s)"
    by simp
next
  let ?a = "client_ip request"
  assume ok: "fst (vote_idea (Some db) i n idea_id request) = Inr (VoteStatus ''ok'' ?a)"
  from vote_idea_ok_branch [OF ok] obtain key where
    key: "ObjectId idea_id = Inr key" "key \<in> set (map fst (idea db))"
    and fresh: "?a \<notin> set (map (\<lambda>d. ip (snd d)) (vote db))" "i \<notin> set (map fst (vote db))"
    by blast
  let ?v = "(i, \<lparr>created_at = Some n, updated_at = Some n, Vote.post_id = idea_id, ip = ?a\<rparr>)"
  let ?db' = "db\<lparr>vote := vote db @ [?v],
                  idea := update_one_id (idea db) key (\<lambda>x. x\<lparr>votes_count := votes_count x + 1\<rparr>)\<rparr>"
  have first: "vote_idea (Some db) i n idea_id request = (Inr (VoteStatus ''ok'' ?a), Some ?db')"
    by (rule vote_idea_new_vote [OF key fresh])
  have key': "key \<in> set (map fst (idea ?db'))"
    using key(2) by (simp add: map_fst_update_one_id)
  have "find_one_ip (vote ?db') ?a = Some ?v"
    using fresh(1) by (simp add: find_one_ip_append_new)
  from vote_idea_existing_vote [OF key(1) key' this]
  have "vote_idea (Some ?db') i' n' idea_id request =
          (Inr (VoteStatus ''already_voted'' ?a), Some ?db')"
    by simp
  with first
  show "vote_idea (snd (vote_idea (Some db) i n idea_id request)) i' n' idea_id request =
          (Inr (VoteStatus ''already_voted'' ?a), snd (vote_idea (Some db) i n idea_id request))"
    by simp
qed

theorem vote_idea_same_idea_again_witness:
  "ex_vote \<in> set (votes (run (\<lambda>u. True) (Some empty_db) ex_vote_events)) \<and>
   ip (snd ex_vote) = client_ip ex_request \<and>
   Vote.post_id (snd ex_vote) = ''aaaaaaaaaaaaaaaaaaaaaaaa'' \<and>
   vote_idea (Some ex_db_voted) 8 3 ''aaaaaaaaaaaaaaaaaaaaaaaa'' ex_request =
     (Inr (VoteStatus ''already_voted'' ''1.2.3.4''), Some ex_db_voted) \<and>
   fst (vote_idea (Some ex_db) 7 2 ''aaaaaaaaaaaaaaaaaaaaaaaa'' ex_request) =
     Inr (VoteStatus ''ok'' ''1.2.3.4'') \<and>
   vote_idea (snd (vote_idea (Some ex_db) 7 2 ''aaaaaaaaaaaaaaaaaaaaaaaa'' ex_request)) 8 3
       ''aaaaaaaaaaaaaaaaaaaaaaaa'' ex_request =
     (Inr (VoteStatus ''already_voted'' ''1.2.3.4''), Some ex_db_voted)"
proof -
  have ok: "vote_idea (Some ex_db) 7 2 ''aaaaaaaaaaaaaaaaaaaaaaaa'' ex_request =
      (Inr (VoteStatus ''ok'' ''1.2.3.4''), Some ex_db_voted)"
    by (simp add: vote_idea_new_vote [OF ObjectId_lower] client_ip_ex_request ex_db_def
        ex_db_voted_def ex_vote_def ex_idea_def ex_ids_neq)
  have h: "ex_vote \<in> set (votes (run (\<lambda>u. True) (Some empty_db) ex_vote_events))"
    "ip (snd ex_vote) = client_ip ex_request"
    "Vote.post_id (snd ex_vote) = ''aaaaaaaaaaaaaaaaaaaaaaaa''"
    by (simp_all add: run_ex_vote_events ex_db_voted_def ex_vote_def client_ip_ex_request)
  from vote_idea_same_idea_again
    [of "Some ex_db_voted" "\<lambda>u. True" ex_vote_events ex_vote ex_request
        "''aaaaaaaaaaaaaaaaaaaaaaaa''" 8 3 ex_db 7 2 8 3]
  show ?thesis
    using h ok by (simp add: run_ex_vote_events client_ip_ex_request)
qed

text \<open>
  C3. In every state the service can reach, a vote for a stored idea B from an ip whose
  Vote record is for another idea A is refused with status 403, and the store stays as
  it is: no Vote record is inserted and neither counter moves.
\<close>

theorem vote_idea_other_idea_forbidden:
  assumes "s = run H (Some empty_db) evs"
    and "d \<in> set (votes s)" and "ip (snd d) = client_ip request"
    and "ObjectId idea_id = Inr key" and "key \<in> set (map fst (ideas s))"
    and "ObjectId (Vote.post_id (snd d)) \<noteq> Inr key"
  shows "vote_idea s new_id now idea_id request =
           (Inl (HTTPException 403 ''This IP has already voted for another idea''), s) \<and>
         status_code (HTTPException 403 ''This IP has already voted for another idea'') = 403"
proof -
  from run_steps [of H empty_db evs] assms(1) obtain db1 where s: "s = Some db1" by auto
  from assms(1) have inv: "one_vote_per_ip s" by (simp add: reachable_invariants)
  from assms(2) s have d: "d \<in> set (vote db1)" by simp
  from one_vote_find [of db1 d] inv d s assms(3)
  have f: "find_one_ip (vote db1) (client_ip request) = Some d" by simp
  from assms(5) s have key: "key \<in> set (map fst (idea db1))" by simp
  from assms(4,6) have "Vote.post_id (snd d) \<noteq> idea_id" by auto
  with vote_idea_existing_vote [OF assms(4) key f] s show ?thesis by simp
qed

theorem vote_idea_other_idea_forbidden_witness:
  "ex_vote \<in> set (votes (run (\<lambda>u. True) (Some empty_db) ex_vote_events)) \<and>
   ip (snd ex_vote) = client_ip ex_request \<and>
   ObjectId ''bbbbbbbbbbbbbbbbbbbbbbbb'' = Inr ex_id2 \<and>
   ex_id2 \<in> set (map fst (ideas (run (\<lambda>u. True) (Some empty_db) ex_vote_events))) \<and>
   ObjectId (Vote.post_id (snd ex_vote)) \<noteq> Inr ex_id2 \<and>
   vote_idea (Some ex_db_voted) 8 3 ''bbbbbbbbbbbbbbbbbbbbbbbb'' ex_request =
     (Inl (HTTPException 403 ''This IP has already voted for another idea''), Some ex_db_voted)"
proof -
  have h: "ex_vote \<in> set (votes (run (\<lambda>u. True) (Some empty_db) ex_vote_events))"
    "ip (snd ex_vote) = client_ip ex_request"
    "ObjectId ''bbbbbbbbbbbbbbbbbbbbbbbb'' = Inr ex_id2"
    "ex_id2 \<in> set (map fst (ideas (run (\<lambda>u. True) (Some empty_db) ex_vote_events)))"
    "ObjectId (Vote.post_id (snd ex_vote)) \<noteq> Inr ex_id2"
    by (simp_all add: run_ex_vote_events ex_db_voted_def ex_vote_def client_ip_ex_request
        ObjectId_b ObjectId_lower ex_ids_neq)
  from vote_idea_other_idea_forbidden [OF refl h, of 8 3]
  show ?thesis using h by (simp add: run_ex_vote_events)
qed

text \<open>
  C4. In every state the service can reach, each ip has at most one Vote record, over
  all ideas together. Every operation keeps it so: whatever request is served in a
  state with at most one Vote record per ip, the state it leaves has at most one per
  ip. And a Vote record stays the only one of its ip in every later state, so an ip
  that holds a vote for one idea never gets a vote for another.
\<close>

theorem one_vote_per_ip_always:
  "length (votes_of_ip (run H (Some empty_db) evs) v) \<le> 1 \<and>
   ((\<forall>a. length (votes_of_ip s a) \<le> 1) \<longrightarrow>
      (\<forall>a. length (votes_of_ip (snd (handle H s ev)) a) \<le> 1)) \<and>
   (d \<in> set (votes (run H (Some empty_db) evs)) \<longrightarrow>
      votes_of_ip (run H (Some empty_db) (evs @ evs')) (ip (snd d)) = [d])"
proof (intro conjI impI)
  from reachable_invariants(1) [of H evs]
  show "length (votes_of_ip (run H (Some empty_db) evs) v) \<le> 1"
    by (simp add: one_vote_per_ip_count)
next
  assume "\<forall>a. length (votes_of_ip s a) \<le> 1"
  then have "one_vote_per_ip s" by (simp add: one_vote_per_ip_count)
  then have "one_vote_per_ip (snd (handle H s ev))" by (rule handle_one_vote_per_ip)
  then show "\<forall>a. length (votes_of_ip (snd (handle H s ev)) a) \<le> 1"
    by (simp add: one_vote_per_ip_count)
next
  let ?s = "run H (Some empty_db) evs" and ?s' = "run H (Some empty_db) (evs @ evs')"
  assume d: "d \<in> set (votes ?s)"
  have "set (votes ?s) \<subseteq> set (votes ?s')"
    unfolding run_append by (rule run_votes_grow)
  with d have d': "d \<in> set (votes ?s')" by blast
  from reachable_invariants(1) [of H "evs @ evs'"]
  have "distinct (map (\<lambda>d. ip (snd d)) (votes ?s'))" by (simp add: one_vote_per_ip_def)
  from distinct_filter_single [OF this d']
  show "votes_of_ip ?s' (ip (snd d)) = [d]" by (simp add: votes_of_ip_def)
qed

theorem one_vote_per_ip_always_witness:
  "length (votes_of_ip (Some ex_db_voted) ''1.2.3.4'') \<le> 1 \<and>
   (\<forall>a. length (votes_of_ip (Some ex_db_voted) a) \<le> 1) \<and>
   (\<forall>a. length (votes_of_ip
      (snd (handle (\<lambda>u. True) (Some ex_db_voted)
         (Vote_idea 8 3 ''bbbbbbbbbbbbbbbbbbbbbbbb'' ex_request))) a) \<le> 1) \<and>
   ex_vote \<in> set (votes (run (\<lambda>u. True) (Some empty_db) ex_vote_events)) \<and>
   votes_of_ip (run (\<lambda>u. True) (Some empty_db)
      (ex_vote_events @ [Vote_idea 8 3 ''bbbbbbbbbbbbbbbbbbbbbbbb'' ex_request]))
      (ip (snd ex_vote)) = [ex_vote]"
proof -
  have c: "\<forall>a. length (votes_of_ip (Some ex_db_voted) a) \<le> 1"
    by (simp add: votes_of_ip_def ex_db_voted_def)
  have m: "ex_vote \<in> set (votes (run (\<lambda>u. True) (Some empty_db) ex_vote_events))"
    by (simp add: run_ex_vote_events ex_db_voted_def)
  from one_vote_per_ip_always
    [of "\<lambda>u. True" ex_vote_events "''1.2.3.4''" "Some ex_db_voted"
        "Vote_idea 8 3 ''bbbbbbbbbbbbbbbbbbbbbbbb'' ex_request" ex_vote
        "[Vote_idea 8 3 ''bbbbbbbbbbbbbbbbbbbbbbbb'' ex_request]"]
  show ?thesis using c m by (simp add: run_ex_vote_events)
qed







text \<open>
  C8. An idea id that is not 24 hexadecimal digits refers to no idea, and the vote
  request for it ends in the uncaught \<open>InvalidId\<close> of \<open>ObjectId(idea_id)\<close>, which the
  service answers with status 500, not with the 404 of \<open>Idea not found\<close>. The store
  is left as it is.
\<close>

theorem vote_idea_malformed_id_not_404:
  "\<not> refers_to_idea (Some ex_db) ''abc'' \<and>
   vote_idea (Some ex_db) 7 2 ''abc'' ex_request = (Inl (InvalidId ''abc''), Some ex_db) \<and>
   status_code (InvalidId ''abc'') = 500"
  by (simp add: refers_to_idea_def vote_idea_invalid_id ObjectId_def)

text \<open>
  C9. A comment whose \<open>post_id\<close> is not 24 hexadecimal digits refers to no idea, and
  the request ends in the uncaught \<open>InvalidId\<close> of \<open>ObjectId(payload.post_id)\<close>, which the
  service answers with status 500, not with the 404 of \<open>Idea not found\<close>. The store
  is left as it is.
\<close>

theorem add_comment_malformed_id_not_404:
  "\<not> refers_to_idea (Some ex_db) ''abc'' \<and>
   add_comment (Some ex_db) 9 2 (ex_comment_payload ''abc'') = (Inl (InvalidId ''abc''), Some ex_db) \<and>
   status_code (InvalidId ''abc'') = 500"
proof -
  have "ObjectId (CreateComment.post_id (ex_comment_payload ''abc'')) = Inl (InvalidId ''abc'')"
    by (simp add: fields_ex_comment_payload ObjectId_def)
  from add_comment_invalid_id [OF valid_ex_comment_payload this]
  show ?thesis by (simp add: refers_to_idea_def ObjectId_def)
qed

text \<open>
  C10. A vote request with no \<open>x-forwarded-for\<close> header and no peer address votes as
  \<open>"unknown"\<close>. All such requests are one voter: in every state the service can reach
  there is at most one Vote record with ip \<open>"unknown"\<close>, and once there is one it stays
  the only one, with the idea it was cast for, whatever is requested afterwards.
\<close>

theorem anonymous_votes_are_one_voter:
  "(map_of (headers request) ''x-forwarded-for'' = None \<and> client request = None \<longrightarrow>
      client_ip request = ''unknown'') \<and>
   length (votes_of_ip (run H (Some empty_db) evs) ''unknown'') \<le> 1 \<and>
   (d \<in> set (votes_of_ip (run H (Some empty_db) evs) ''unknown'') \<longrightarrow>
      votes_of_ip (run H (Some empty_db) (evs @ evs')) ''unknown'' = [d])"
proof (intro conjI impI)
  assume "map_of (headers request) ''x-forwarded-for'' = None \<and> client request = None"
  then show "client_ip request = ''unknown''" by (simp add: client_ip_def)
next
  from reachable_invariants(1) [of H evs]
  show "length (votes_of_ip (run H (Some empty_db) evs) ''unknown'') \<le> 1"
    by (simp add: one_vote_per_ip_count)
next
  let ?s = "run H (Some empty_db) evs" and ?s' = "run H (Some empty_db) (evs @ evs')"
  assume "d \<in> set (votes_of_ip ?s ''unknown'')"
  then have d: "d \<in> set (votes ?s)" and a: "ip (snd d) = ''unknown''"
    by (simp_all add: votes_of_ip_def)
  have "set (votes ?s) \<subseteq> set (votes ?s')"
    unfolding run_append by (rule run_votes_grow)
  with d have d': "d \<in> set (votes ?s')" by blast
  from reachable_invariants(1) [of H "evs @ evs'"]
  have "distinct (map (\<lambda>d. ip (snd d)) (votes ?s'))" by (simp add: one_vote_per_ip_def)
  from distinct_filter_single [OF this d'] a
  show "votes_of_ip ?s' ''unknown'' = [d]" by (simp add: votes_of_ip_def)
qed

theorem anonymous_votes_are_one_voter_witness:
  "map_of (headers ex_anonymous) ''x-forwarded-for'' = None \<and> client ex_anonymous = None \<and>
   client_ip ex_anonymous = ''unknown'' \<and>
   length (votes_of_ip (run (\<lambda>u. True) (Some empty_db) ex_anon_events) ''unknown'') \<le> 1 \<and>
   ex_anon_vote \<in> set (votes_of_ip (run (\<lambda>u. True) (Some empty_db) ex_anon_events) ''unknown'') \<and>
   votes_of_ip (run (\<lambda>u. True) (Some empty_db)
      (ex_anon_events @ [Vote_idea 8 3 ''bbbbbbbbbbbbbbbbbbbbbbbb'' ex_anonymous])) ''unknown'' =
     [ex_anon_vote]"
proof -
  have h: "map_of (headers ex_anonymous) ''x-forwarded-for'' = None \<and> client ex_anonymous = None"
    by (simp add: ex_anonymous_def)
  have m: "ex_anon_vote \<in> set (votes_of_ip (run (\<lambda>u. True) (Some empty_db) ex_anon_events) ''unknown'')"
    by (simp add: run_ex_anon_events votes_of_ip_def ex_db_anon_def ex_anon_vote_def)
  from anonymous_votes_are_one_voter
    [of ex_anonymous "\<lambda>u. True" ex_anon_events ex_anon_vote
        "[Vote_idea 8 3 ''bbbbbbbbbbbbbbbbbbbbbbbb'' ex_anonymous]"]
  show ?thesis using h m by simp
qed

end
